theory Spec2Isabelle
  imports Main
begin

section \<open>The session controller of src/index.js\<close>

text \<open>
  The program is one Node.js module: eight module-level variables, a handful of
  helpers, the event handlers of the WhatsApp client, the recovery routine
  \<open>hardRestart\<close>, a watchdog timer and the HTTP endpoints. JavaScript runs the
  handlers one at a time on a single thread; an \<open>async\<close> handler runs up to its
  first \<open>await\<close>, is suspended there, and its remainder runs later as a task of
  its own. The model follows that: every handler is a function from state to
  state that performs the synchronous part, and every \<open>await\<close> leaves a
  suspended task behind, which a later \<open>Settle\<close> event resumes. Whatever the
  program does to the outside world (the client, the file system, HTTP
  responses, the console) is appended to a list of effects.
\<close>

subsection \<open>Data\<close>

text \<open>The message object the client hands to the \<open>message\<close> handler
  (fields \<open>from\<close>, \<open>body\<close>, \<open>timestamp\<close>, \<open>hasMedia\<close>).\<close>

record message =
  msg_from :: string
  msg_body :: string
  msg_timestamp :: int
  msg_hasMedia :: bool

text \<open>The object posted to the webhook (lines 122-129), with its six keys.\<close>

record webhook_payload =
  p_from :: string
  p_body :: string
  p_timestamp :: int
  p_chatId :: string
  p_isGroup :: bool
  p_hasMedia :: bool

text \<open>A chat as \<open>client.getChats()\<close> returns it; \<open>chat_id\<close> is \<open>id._serialized\<close>.\<close>

record chat =
  chat_id :: string
  chat_name :: string
  chat_isGroup :: bool

text \<open>The console lines of the program, one constructor for each call site.\<close>

datatype log_line =
    LogServerRunning
  | LogInitializing
  | LogQrReceived
  | LogAuthenticated
  | LogClientReady
  | LogWebhookFailed string
  | LogAuthFailure string
  | LogDisconnected string
  | LogRestarting
  | LogClearingAuthCache
  | LogHeartbeatLost

text \<open>
  The JSON bodies of the HTTP responses. The health body carries the \<open>status\<close>
  string and the \<open>authenticated\<close> flag; its \<open>uptime\<close> and \<open>timestamp\<close> fields
  are read from the process clock and are left out.
\<close>

datatype body =
    HealthBody string bool
  | AlreadyAuthenticated
  | QrNotReadyYet
  | QrBody string
  | ClientNotReady
  | SendSuccess string
  | SendFailure string
  | GroupsBody "(string \<times> string) list"
  | GroupsError string
  | ListeningEnabled
  | WebhookSetBody "string option"

text \<open>
  Effects on the outside world, in the order the program performs them. Clients
  are numbered in the order \<open>new Client\<close> constructs them. A missing or \<open>null\<close>
  JavaScript string is \<open>None\<close>.
\<close>

datatype effect =
    Log log_line
  | NewClient nat
  | ClientInitialize nat
  | ClientDestroy nat
  | RmSync string
  | Sleep nat
  | QrToDataURL string
  | AxiosPost string webhook_payload
  | SendMessage nat "string option" "string option" "string option"
  | GetChats nat
  | Respond nat body
  | UncaughtError

text \<open>
  A suspended \<open>async\<close> function: which \<open>await\<close> it is waiting at. \<open>TDestroy w\<close>
  is \<open>hardRestart(w)\<close> at \<open>await client.destroy()\<close>, \<open>TSleep\<close> is \<open>hardRestart\<close> at
  \<open>await sleep(5000)\<close>.
\<close>

datatype task =
    TInitialize
  | TDestroy bool
  | TSleep
  | TQr
  | TPost
  | TSend
  | TGroups

text \<open>How an awaited promise settles.\<close>

datatype outcome =
    Resolved
  | ResolvedStr string
  | ResolvedChats "chat list"
  | RejectedWith string

text \<open>
  The module-level variables (lines 24-31), the suspended tasks and the effects
  so far. \<open>client\<close> is \<open>None\<close> while the variable is \<open>undefined\<close>.
\<close>

record state =
  client :: "nat option"
  qrCodeData :: "string option"
  isAuthenticated :: bool
  isReady :: bool
  webhookUrl :: "string option"
  isListening :: bool
  lastReadyAt :: "int option"
  restarting :: bool
  pending :: "task list"
  effects :: "effect list"

definition init_state :: state where
  "init_state =
     \<lparr>client = None, qrCodeData = None, isAuthenticated = False, isReady = False,
      webhookUrl = None, isListening = False, lastReadyAt = None, restarting = False,
      pending = [], effects = []\<rparr>"

text \<open>Everything that can happen to the process: start-up, the events of the
  client, a tick of the watchdog, an HTTP request, and the settling of an
  awaited promise (the suspended task is named by its position in \<open>pending\<close>).\<close>

datatype event =
    AppListen
  | EmitQr string
  | EmitAuthenticated
  | EmitReady int
  | EmitMessage message
  | EmitAuthFailure string
  | EmitDisconnected string
  | WatchdogTick int
  | GetHealth
  | GetAuthQr
  | PostSend "string option" "string option"
  | PostReply "string option" "string option" "string option"
  | GetGroups
  | GetListen
  | PostWebhookSet "string option"
  | Settle nat outcome

subsection \<open>Helpers\<close>

text \<open>JavaScript truthiness of a value that is a string, \<open>null\<close> or \<open>undefined\<close>:
  the empty string is falsy.\<close>

definition truthy :: "string option \<Rightarrow> bool" where
  "truthy v = (case v of None \<Rightarrow> False | Some str \<Rightarrow> str \<noteq> [])"

text \<open>\<open>String.prototype.includes\<close>: the pattern occurs somewhere in the string.\<close>

fun str_includes :: "string \<Rightarrow> string \<Rightarrow> bool" where
  "str_includes [] pat = (pat = [])"
| "str_includes (c # cs) pat = (take (length pat) (c # cs) = pat \<or> str_includes cs pat)"

text \<open>\<open>formatJID\<close> (lines 39-44), for an argument that is a string, \<open>null\<close> or
  \<open>undefined\<close>. \<open>!number\<close> holds for the last two and for the empty string.\<close>

definition formatJID :: "string option \<Rightarrow> string option" where
  "formatJID number =
     (case number of
        None \<Rightarrow> None
      | Some n \<Rightarrow>
          if n = [] then None
          else if CHR ''@'' \<in> set n then Some n
          else if CHR ''-'' \<in> set n then Some (n @ ''@g.us'')
          else Some (n @ ''@c.us''))"

definition emit :: "effect \<Rightarrow> state \<Rightarrow> state" where
  "emit e s = s\<lparr>effects := effects s @ [e]\<rparr>"

definition suspend :: "task \<Rightarrow> state \<Rightarrow> state" where
  "suspend t s = s\<lparr>pending := pending s @ [t]\<rparr>"

text \<open>\<open>resetRuntimeState\<close> (lines 46-50).\<close>

definition resetRuntimeState :: "state \<Rightarrow> state" where
  "resetRuntimeState s = s\<lparr>qrCodeData := None, isAuthenticated := False, isReady := False\<rparr>"

subsection \<open>Initialization\<close>

text \<open>\<open>initializeClient\<close> (lines 56-146) up to \<open>await client.initialize()\<close>;
  nothing follows that \<open>await\<close>. Registering the handlers on the new client
  has no effect of its own: the handlers are the functions below.\<close>

definition initializeClient :: "state \<Rightarrow> state" where
  "initializeClient s =
     (if restarting s then s
      else
        let s1 = emit (Log LogInitializing) (s\<lparr>restarting := True\<rparr>);
            s2 = resetRuntimeState s1;
            c = (case client s2 of None \<Rightarrow> 0 | Some k \<Rightarrow> Suc k);
            s3 = emit (NewClient c) (s2\<lparr>client := Some c\<rparr>)
        in suspend TInitialize (emit (ClientInitialize c) s3))"

subsection \<open>Recovery\<close>

text \<open>
  \<open>hardRestart\<close> (lines 152-173) in its three synchronous stretches:
  \<open>hardRestart\<close> itself up to \<open>await client.destroy()\<close>, \<open>after_destroy\<close> from the
  end of the \<open>try\<close> block up to \<open>await sleep(5000)\<close>, and \<open>after_sleep\<close>. When
  there is no client, nothing is awaited in the \<open>try\<close> block and the first
  stretch runs on into the second. The parameter \<open>rm_throws\<close> is the file system: \<open>rm_throws p\<close> holds when
  \<open>fs.rmSync(p, {recursive: true, force: true})\<close> raises. With \<open>force\<close> a missing
  path does not raise; any other failure (a file that is busy or not
  permitted) does. Nothing in \<open>hardRestart\<close> catches it, so the call ends there.
\<close>

definition after_destroy :: "(string \<Rightarrow> bool) \<Rightarrow> bool \<Rightarrow> state \<Rightarrow> state" where
  "after_destroy rm_throws wipeAuth s =
     (if wipeAuth then
        let s1 = emit (RmSync ''.wwebjs_auth'') (emit (Log LogClearingAuthCache) s)
        in if rm_throws ''.wwebjs_auth'' then emit UncaughtError s1
           else
             let s2 = emit (RmSync ''.wwebjs_cache'') s1
             in if rm_throws ''.wwebjs_cache'' then emit UncaughtError s2
                else suspend TSleep (emit (Sleep 5000) s2)
      else suspend TSleep (emit (Sleep 5000) s))"

definition hardRestart :: "(string \<Rightarrow> bool) \<Rightarrow> bool \<Rightarrow> state \<Rightarrow> state" where
  "hardRestart rm_throws wipeAuth s =
     (if restarting s then s
      else
        let s1 = emit (Log LogRestarting) (s\<lparr>restarting := True\<rparr>)
        in case client s1 of
             Some c \<Rightarrow> suspend (TDestroy wipeAuth) (emit (ClientDestroy c) s1)
           | None \<Rightarrow> after_destroy rm_throws wipeAuth s1)"

definition after_sleep :: "state \<Rightarrow> state" where
  "after_sleep s = initializeClient (s\<lparr>restarting := False\<rparr>)"

subsection \<open>Event handlers\<close>

definition on_qr :: "string \<Rightarrow> state \<Rightarrow> state" where
  "on_qr qr s = suspend TQr (emit (QrToDataURL qr) (emit (Log LogQrReceived) s))"

definition qr_encoded :: "string \<Rightarrow> state \<Rightarrow> state" where
  "qr_encoded url s = s\<lparr>qrCodeData := Some url, isAuthenticated := False, isReady := False\<rparr>"

definition on_authenticated :: "state \<Rightarrow> state" where
  "on_authenticated s = (emit (Log LogAuthenticated) s)\<lparr>isAuthenticated := True\<rparr>"

definition on_ready :: "int \<Rightarrow> state \<Rightarrow> state" where
  "on_ready now s =
     (emit (Log LogClientReady) s)
       \<lparr>isAuthenticated := True, isReady := True, qrCodeData := None,
        lastReadyAt := Some now, restarting := False\<rparr>"

definition payload_of :: "message \<Rightarrow> webhook_payload" where
  "payload_of m =
     \<lparr>p_from = msg_from m, p_body = msg_body m, p_timestamp = msg_timestamp m,
      p_chatId = msg_from m, p_isGroup = str_includes (msg_from m) ''@g.us'',
      p_hasMedia = msg_hasMedia m\<rparr>"

definition on_message :: "message \<Rightarrow> state \<Rightarrow> state" where
  "on_message m s =
     (if \<not> isListening s \<or> \<not> truthy (webhookUrl s) then s
      else
        case webhookUrl s of
          None \<Rightarrow> s
        | Some url \<Rightarrow> suspend TPost (emit (AxiosPost url (payload_of m)) s))"

definition on_auth_failure :: "(string \<Rightarrow> bool) \<Rightarrow> string \<Rightarrow> state \<Rightarrow> state" where
  "on_auth_failure rm_throws msg s = hardRestart rm_throws True (emit (Log (LogAuthFailure msg)) s)"

definition on_disconnected :: "(string \<Rightarrow> bool) \<Rightarrow> string \<Rightarrow> state \<Rightarrow> state" where
  "on_disconnected rm_throws reason s =
     hardRestart rm_throws False (emit (Log (LogDisconnected reason)) s)"

subsection \<open>Watchdog\<close>

text \<open>The timer of lines 179-190. \<open>now - lastReadyAt\<close> reads \<open>null\<close> as 0.\<close>

definition watchdog_period_ms :: nat where
  "watchdog_period_ms = 60 * 1000"

definition watchdog :: "(string \<Rightarrow> bool) \<Rightarrow> int \<Rightarrow> state \<Rightarrow> state" where
  "watchdog rm_throws now s =
     (if \<not> isReady s then s
      else
        let diff = now - (case lastReadyAt s of None \<Rightarrow> 0 | Some t \<Rightarrow> t)
        in if diff > 15 * 60 * 1000
           then hardRestart rm_throws False (emit (Log LogHeartbeatLost) s)
           else s)"

subsection \<open>HTTP endpoints\<close>

definition get_health :: "state \<Rightarrow> state" where
  "get_health s =
     emit (Respond 200
       (HealthBody (if isReady s then ''connected'' else ''disconnected'') (isAuthenticated s))) s"

definition get_auth_qr :: "state \<Rightarrow> state" where
  "get_auth_qr s =
     (if isAuthenticated s then emit (Respond 200 AlreadyAuthenticated) s
      else if \<not> truthy (qrCodeData s) then emit (Respond 503 QrNotReadyYet) s
      else case qrCodeData s of
             None \<Rightarrow> emit (Respond 503 QrNotReadyYet) s
           | Some d \<Rightarrow> emit (Respond 200 (QrBody d)) s)"

text \<open>\<open>/send\<close> (lines 215-226) and \<open>/reply\<close> (lines 228-243) up to
  \<open>await client.sendMessage(...)\<close>. Reading \<open>sendMessage\<close> off an undefined
  client raises inside the \<open>try\<close>, which answers 500.\<close>

definition post_send :: "string option \<Rightarrow> string option \<Rightarrow> state \<Rightarrow> state" where
  "post_send to message s =
     (if \<not> isReady s then emit (Respond 503 ClientNotReady) s
      else
        case client s of
          None \<Rightarrow> emit (Respond 500 (SendFailure ''TypeError'')) s
        | Some c \<Rightarrow> suspend TSend (emit (SendMessage c (formatJID to) message None) s))"

definition post_reply ::
    "string option \<Rightarrow> string option \<Rightarrow> string option \<Rightarrow> state \<Rightarrow> state" where
  "post_reply chatId messageId replyText s =
     (if \<not> isReady s then emit (Respond 503 ClientNotReady) s
      else
        case client s of
          None \<Rightarrow> emit (Respond 500 (SendFailure ''TypeError'')) s
        | Some c \<Rightarrow> suspend TSend (emit (SendMessage c chatId replyText messageId) s))"

definition get_groups :: "state \<Rightarrow> state" where
  "get_groups s =
     (if \<not> isReady s then emit (Respond 503 ClientNotReady) s
      else
        case client s of
          None \<Rightarrow> emit (Respond 500 (GroupsError ''TypeError'')) s
        | Some c \<Rightarrow> suspend TGroups (emit (GetChats c) s))"

definition get_listen :: "state \<Rightarrow> state" where
  "get_listen s = emit (Respond 200 ListeningEnabled) (s\<lparr>isListening := True\<rparr>)"

definition post_webhook_set :: "string option \<Rightarrow> state \<Rightarrow> state" where
  "post_webhook_set url s = emit (Respond 200 (WebhookSetBody url)) (s\<lparr>webhookUrl := url\<rparr>)"

definition app_listen :: "state \<Rightarrow> state" where
  "app_listen s = initializeClient (emit (Log LogServerRunning) s)"

subsection \<open>Resuming a suspended task\<close>

text \<open>
  What runs after each \<open>await\<close>. Nothing follows \<open>await client.initialize()\<close>; if
  it rejects, nobody catches it. A failed \<open>destroy()\<close> is swallowed by the empty
  \<open>catch\<close> (line 162), so \<open>hardRestart\<close> goes on either way. The \<open>qr\<close> handler
  writes its three variables only after the encoding has resolved (lines
  99-101); if the encoding rejects nothing is written.
\<close>

fun resume :: "(string \<Rightarrow> bool) \<Rightarrow> task \<Rightarrow> outcome \<Rightarrow> state \<Rightarrow> state" where
  "resume rm_throws TInitialize (RejectedWith err) s = emit UncaughtError s"
| "resume rm_throws TInitialize out s = s"
| "resume rm_throws (TDestroy w) out s = after_destroy rm_throws w s"
| "resume rm_throws TSleep out s = after_sleep s"
| "resume rm_throws TQr (ResolvedStr url) s = qr_encoded url s"
| "resume rm_throws TQr out s = emit UncaughtError s"
| "resume rm_throws TPost (RejectedWith err) s = emit (Log (LogWebhookFailed err)) s"
| "resume rm_throws TPost out s = s"
| "resume rm_throws TSend (RejectedWith err) s = emit (Respond 500 (SendFailure err)) s"
| "resume rm_throws TSend (ResolvedStr r) s = emit (Respond 200 (SendSuccess r)) s"
| "resume rm_throws TSend out s = emit (Respond 200 (SendSuccess [])) s"
| "resume rm_throws TGroups (ResolvedChats cs) s =
     emit (Respond 200
       (GroupsBody (map (\<lambda>c. (chat_id c, chat_name c)) (filter chat_isGroup cs)))) s"
| "resume rm_throws TGroups (RejectedWith err) s = emit (Respond 500 (GroupsError err)) s"
| "resume rm_throws TGroups out s = emit (Respond 500 (GroupsError ''TypeError'')) s"

definition settle :: "(string \<Rightarrow> bool) \<Rightarrow> nat \<Rightarrow> outcome \<Rightarrow> state \<Rightarrow> state" where
  "settle rm_throws i out s =
     (if i < length (pending s)
      then resume rm_throws (pending s ! i) out
             (s\<lparr>pending := take i (pending s) @ drop (Suc i) (pending s)\<rparr>)
      else s)"

subsection \<open>The event loop\<close>

fun step :: "(string \<Rightarrow> bool) \<Rightarrow> event \<Rightarrow> state \<Rightarrow> state" where
  "step rm_throws AppListen s = app_listen s"
| "step rm_throws (EmitQr qr) s = on_qr qr s"
| "step rm_throws EmitAuthenticated s = on_authenticated s"
| "step rm_throws (EmitReady now) s = on_ready now s"
| "step rm_throws (EmitMessage m) s = on_message m s"
| "step rm_throws (EmitAuthFailure msg) s = on_auth_failure rm_throws msg s"
| "step rm_throws (EmitDisconnected reason) s = on_disconnected rm_throws reason s"
| "step rm_throws (WatchdogTick now) s = watchdog rm_throws now s"
| "step rm_throws GetHealth s = get_health s"
| "step rm_throws GetAuthQr s = get_auth_qr s"
| "step rm_throws (PostSend to message) s = post_send to message s"
| "step rm_throws (PostReply chatId messageId replyText) s =
     post_reply chatId messageId replyText s"
| "step rm_throws GetGroups s = get_groups s"
| "step rm_throws GetListen s = get_listen s"
| "step rm_throws (PostWebhookSet url) s = post_webhook_set url s"
| "step rm_throws (Settle i out) s = settle rm_throws i out s"

definition run :: "(string \<Rightarrow> bool) \<Rightarrow> event list \<Rightarrow> state \<Rightarrow> state" where
  "run rm_throws es s = fold (step rm_throws) es s"

subsection \<open>Recoveries in flight\<close>

text \<open>A recovery is in flight while a call of \<open>hardRestart\<close> that passed the guard
  is suspended at one of its two \<open>await\<close>s.\<close>

fun is_recovery :: "task \<Rightarrow> bool" where
  "is_recovery (TDestroy w) = True"
| "is_recovery TSleep = True"
| "is_recovery t = False"

definition recoveries_in_flight :: "state \<Rightarrow> nat" where
  "recoveries_in_flight s = length (filter is_recovery (pending s))"

text \<open>The guard covers the recovery in flight: either none is in flight, or
  exactly one is and \<open>restarting\<close> is set.\<close>

definition guard_holds :: "state \<Rightarrow> bool" where
  "guard_holds s =
     (recoveries_in_flight s = 0 \<or> (restarting s \<and> recoveries_in_flight s = 1))"

text \<open>A schedule in which the client emits \<open>ready\<close> only while no recovery is in
  flight.\<close>

fun ready_only_when_idle :: "(string \<Rightarrow> bool) \<Rightarrow> event list \<Rightarrow> state \<Rightarrow> bool" where
  "ready_only_when_idle rm_throws [] s = True"
| "ready_only_when_idle rm_throws (EmitReady now # es) s =
     (recoveries_in_flight s = 0 \<and> ready_only_when_idle rm_throws es (on_ready now s))"
| "ready_only_when_idle rm_throws (e # es) s =
     ready_only_when_idle rm_throws es (step rm_throws e s)"

subsection \<open>Concrete environments and states\<close>

text \<open>A file system on which no deletion raises, and one on which deleting the
  authentication cache raises.\<close>

definition fs_ok :: "string \<Rightarrow> bool" where
  "fs_ok p = False"

definition fs_auth_busy :: "string \<Rightarrow> bool" where
  "fs_auth_busy p = (p = ''.wwebjs_auth'')"

definition fs_cache_busy :: "string \<Rightarrow> bool" where
  "fs_cache_busy p = (p = ''.wwebjs_cache'')"

text \<open>The process right after start-up, once the client is ready, and after a
  \<open>disconnected\<close> event in that state.\<close>

definition starting_state :: state where
  "starting_state = run fs_ok [AppListen] init_state"

definition ready_state :: state where
  "ready_state = run fs_ok [AppListen, EmitReady 0] init_state"

definition recovering_state :: state where
  "recovering_state = run fs_ok [AppListen, EmitReady 0, EmitDisconnected ''NAVIGATION''] init_state"

definition configured_state :: state where
  "configured_state =
     run fs_ok
       [AppListen, GetListen, PostWebhookSet (Some ''http://localhost:8080/hook''), EmitReady 0]
       init_state"

definition group_message :: message where
  "group_message =
     \<lparr>msg_from = ''49170-1600000000@g.us'', msg_body = ''hello'',
      msg_timestamp = 1700000000, msg_hasMedia = False\<rparr>"

text \<open>The two requests that configure the relay: \<open>GET /listen\<close> and
  \<open>POST /webhook/set\<close>.\<close>

fun is_configuration :: "event \<Rightarrow> bool" where
  "is_configuration GetListen = True"
| "is_configuration (PostWebhookSet url) = True"
| "is_configuration e = False"

section \<open>Properties\<close>

lemmas handler_defs =
  emit_def suspend_def resetRuntimeState_def initializeClient_def after_destroy_def
  hardRestart_def after_sleep_def on_qr_def qr_encoded_def on_authenticated_def on_ready_def
  on_message_def on_auth_failure_def on_disconnected_def watchdog_def
  get_health_def get_auth_qr_def post_send_def post_reply_def get_groups_def get_listen_def
  post_webhook_set_def app_listen_def

lemmas example_defs =
  starting_state_def ready_state_def recovering_state_def configured_state_def
  group_message_def init_state_def run_def settle_def
  fs_ok_def fs_auth_busy_def fs_cache_busy_def recoveries_in_flight_def guard_holds_def

subsection \<open>The restart guard\<close>

lemma in_flight_remove:
  assumes "i < length ts"
  shows "length (filter P (take i ts @ drop (Suc i) ts)) =
         length (filter P ts) - (if P (ts ! i) then 1 else 0)"
proof -
  have "ts = take i ts @ ts ! i # drop (Suc i) ts"
    using assms by (simp add: id_take_nth_drop)
  then have "length (filter P ts) =
      length (filter P (take i ts @ ts ! i # drop (Suc i) ts))" by simp
  then show ?thesis by simp
qed

lemma in_flight_pos:
  assumes "i < length ts" "P (ts ! i)"
  shows "0 < length (filter P ts)"
  using assms by (metis filter_empty_conv length_greater_0_conv nth_mem)

lemma hardRestart_noop: "restarting s \<Longrightarrow> hardRestart rm w s = s"
  by (simp add: hardRestart_def)

lemma hardRestart_sets_guard: "restarting (hardRestart rm w s)"
  by (simp add: handler_defs Let_def split: option.splits)

lemma overlapping_triggers: "restarting s \<Longrightarrow> fold (hardRestart rm) ws s = s"
  by (induction ws) (simp_all add: hardRestart_noop)

lemma hardRestart_guard: "guard_holds s \<Longrightarrow> guard_holds (hardRestart rm w s)"
  by (auto simp: guard_holds_def recoveries_in_flight_def handler_defs Let_def
      split: option.splits)

lemma initializeClient_guard: "guard_holds s \<Longrightarrow> guard_holds (initializeClient s)"
  by (auto simp: guard_holds_def recoveries_in_flight_def handler_defs Let_def
      split: option.splits)

lemma emit_guard: "guard_holds (emit e s) = guard_holds s"
  by (simp add: guard_holds_def recoveries_in_flight_def emit_def)

lemma resume_guard:
  assumes "guard_holds s" "i < length (pending s)"
  shows "guard_holds (resume rm (pending s ! i) out
            (s\<lparr>pending := take i (pending s) @ drop (Suc i) (pending s)\<rparr>))"
proof (cases "is_recovery (pending s ! i)")
  case True
  with assms have pos: "0 < recoveries_in_flight s"
    unfolding recoveries_in_flight_def by (rule_tac in_flight_pos)
  with assms have one: "recoveries_in_flight s = 1" and r: "restarting s"
    by (auto simp: guard_holds_def)
  have rest: "length (filter is_recovery (take i (pending s) @ drop (Suc i) (pending s))) = 0"
    using in_flight_remove [OF assms(2), of is_recovery] True one
    by (simp add: recoveries_in_flight_def)
  from True show ?thesis
  proof (cases "pending s ! i")
    case (TDestroy w)
    then show ?thesis using rest r
      by (simp add: guard_holds_def recoveries_in_flight_def handler_defs Let_def)
  next
    case TSleep
    then show ?thesis using rest
      by (simp add: guard_holds_def recoveries_in_flight_def handler_defs Let_def)
  qed simp_all
next
  case False
  have same: "length (filter is_recovery (take i (pending s) @ drop (Suc i) (pending s))) =
      recoveries_in_flight s"
    using in_flight_remove [OF assms(2), of is_recovery] False
    by (simp add: recoveries_in_flight_def)
  from False same assms(1) show ?thesis
    by (cases "pending s ! i"; cases out)
       (simp_all add: guard_holds_def recoveries_in_flight_def handler_defs)
qed

lemma step_guard:
  assumes "guard_holds s" "(\<forall>now. e \<noteq> EmitReady now) \<or> recoveries_in_flight s = 0"
  shows "guard_holds (step rm e s)"
proof (cases e)
  case (EmitReady now)
  with assms show ?thesis
    by (simp add: guard_holds_def recoveries_in_flight_def on_ready_def emit_def)
next
  case (Settle i out)
  with assms(1) show ?thesis
    by (simp add: settle_def resume_guard)
next
  case AppListen
  with assms(1) show ?thesis
    by (simp add: app_listen_def initializeClient_guard emit_guard)
next
  case (EmitAuthFailure m)
  with assms(1) show ?thesis
    by (simp add: on_auth_failure_def hardRestart_guard emit_guard)
next
  case (EmitDisconnected r)
  with assms(1) show ?thesis
    by (simp add: on_disconnected_def hardRestart_guard emit_guard)
next
  case (WatchdogTick now)
  with assms(1) show ?thesis
    by (simp add: watchdog_def Let_def hardRestart_guard emit_guard)
qed (use assms(1) in \<open>auto simp: guard_holds_def recoveries_in_flight_def handler_defs
      split: option.splits\<close>)

lemma run_guard:
  "guard_holds s \<Longrightarrow> ready_only_when_idle rm es s \<Longrightarrow> guard_holds (run rm es s)"
proof (induction es arbitrary: s)
  case Nil
  then show ?case by (simp add: run_def)
next
  case (Cons e es)
  have q: "ready_only_when_idle rm es (step rm e s)"
    using Cons.prems(2) by (cases e) simp_all
  have c: "(\<forall>now. e \<noteq> EmitReady now) \<or> recoveries_in_flight s = 0"
    using Cons.prems(2) by (cases e) simp_all
  have "guard_holds (step rm e s)"
    using Cons.prems(1) c by (rule step_guard)
  then have "guard_holds (run rm es (step rm e s))"
    using q by (rule Cons.IH)
  then show ?case by (simp add: run_def)
qed

text \<open>
  Claim C1, as the code has it. \<open>hardRestart\<close> tests \<open>restarting\<close> in its first
  statement, before any \<open>await\<close>: with the flag set the call returns the state
  as it found it (no effect, no suspended task); otherwise the flag is set
  before the call is suspended. So of any number of calls that arrive one after
  the other only the first goes on; the others change nothing. Along every
  schedule in which \<open>ready\<close> is not handled while a recovery is in flight, at
  most one recovery is in flight, and the flag is set while it is. The \<open>ready\<close>
  handler clears the flag without looking at the recovery, so the restriction
  on the schedule is needed.
\<close>

theorem one_recovery_in_flight:
  "(restarting s \<longrightarrow> hardRestart rm w s = s) \<and>
   restarting (hardRestart rm w s) \<and>
   fold (hardRestart rm) ws (hardRestart rm w s) = hardRestart rm w s \<and>
   guard_holds init_state \<and>
   (guard_holds s \<and> ready_only_when_idle rm es s \<longrightarrow>
      recoveries_in_flight (run rm es s) \<le> 1 \<and> guard_holds (run rm es s))"
proof -
  have "guard_holds (run rm es s) \<Longrightarrow> recoveries_in_flight (run rm es s) \<le> 1"
    by (auto simp: guard_holds_def)
  moreover have "guard_holds init_state"
    by (simp add: guard_holds_def recoveries_in_flight_def init_state_def)
  ultimately show ?thesis
    using hardRestart_noop [of s rm w] hardRestart_sets_guard [of rm w s]
      overlapping_triggers [OF hardRestart_sets_guard, of rm ws rm w s]
      run_guard [of s rm es]
    by blast
qed

theorem one_recovery_in_flight_witness:
  "guard_holds ready_state \<and>
   ready_only_when_idle fs_ok
     [EmitDisconnected ''NAVIGATION'', EmitAuthFailure ''expired'', WatchdogTick 2000000,
      Settle 1 Resolved, EmitDisconnected ''NAVIGATION'', Settle 1 Resolved, EmitReady 9000]
     ready_state \<and>
   recoveries_in_flight (run fs_ok
     [EmitDisconnected ''NAVIGATION'', EmitAuthFailure ''expired'', WatchdogTick 2000000,
      Settle 1 Resolved, EmitDisconnected ''NAVIGATION'', Settle 1 Resolved, EmitReady 9000]
     ready_state) \<le> 1 \<and>
   \<not> restarting ready_state \<and>
   fold (hardRestart fs_ok) [True, False] (hardRestart fs_ok False ready_state) =
     hardRestart fs_ok False ready_state \<and>
   restarting recovering_state \<and>
   hardRestart fs_ok True recovering_state = recovering_state"
proof -
  have n: "restarting recovering_state"
    by (simp add: example_defs handler_defs Let_def)
  from one_recovery_in_flight [of recovering_state fs_ok True "[]" "[]"] n
  have m: "hardRestart fs_ok True recovering_state = recovering_state"
    by blast
  have g: "guard_holds ready_state"
    by (simp add: example_defs handler_defs Let_def)
  have q: "ready_only_when_idle fs_ok
     [EmitDisconnected ''NAVIGATION'', EmitAuthFailure ''expired'', WatchdogTick 2000000,
      Settle 1 Resolved, EmitDisconnected ''NAVIGATION'', Settle 1 Resolved, EmitReady 9000]
     ready_state"
    by (simp add: example_defs handler_defs Let_def)
  have r: "\<not> restarting ready_state"
    by (simp add: example_defs handler_defs Let_def)
  show ?thesis
    using g q r n m
      one_recovery_in_flight [of ready_state fs_ok False "[True, False]"
        "[EmitDisconnected ''NAVIGATION'', EmitAuthFailure ''expired'', WatchdogTick 2000000,
          Settle 1 Resolved, EmitDisconnected ''NAVIGATION'', Settle 1 Resolved, EmitReady 9000]"]
    by blast
qed

text \<open>
  Without that restriction two recoveries can be in flight: a \<open>ready\<close> event
  handled while a recovery waits for \<open>destroy()\<close> clears the guard, and the next
  \<open>disconnected\<close> starts a second recovery beside the first.
\<close>

theorem second_recovery_after_ready:
  "recoveries_in_flight
     (run fs_ok
        [AppListen, EmitReady 0, EmitDisconnected ''NAVIGATION'', EmitReady 1,
         EmitDisconnected ''NAVIGATION'']
        init_state) = 2"
  by (simp add: example_defs handler_defs Let_def)

subsection \<open>Recovery events\<close>

lemma initializeClient_sets_guard: "restarting (initializeClient s)"
  by (simp add: handler_defs Let_def)

lemma guard_stays_step:
  assumes "restarting s" "\<forall>now. e \<noteq> EmitReady now"
  shows "restarting (step rm e s)"
proof (cases e)
  case (Settle i out)
  show ?thesis
  proof (cases "i < length (pending s)")
    case True
    with assms(1) Settle show ?thesis
      by (cases "pending s ! i"; cases out)
         (simp_all add: settle_def handler_defs Let_def)
  next
    case False
    with assms(1) Settle show ?thesis by (simp add: settle_def)
  qed
qed (use assms in \<open>auto simp: handler_defs Let_def split: option.splits\<close>)

lemma guard_stays_run:
  "restarting s \<Longrightarrow> \<forall>now. EmitReady now \<notin> set es \<Longrightarrow> restarting (run rm es s)"
proof (induction es arbitrary: s)
  case Nil
  then show ?case by (simp add: run_def)
next
  case (Cons e es)
  from Cons.prems(2) have ne: "\<forall>now. e \<noteq> EmitReady now" and rest: "\<forall>now. EmitReady now \<notin> set es"
    by auto
  from Cons.prems(1) ne have "restarting (step rm e s)"
    by (rule guard_stays_step)
  then have "restarting (run rm es (step rm e s))"
    using rest by (rule Cons.IH)
  then show ?case by (simp add: run_def)
qed

text \<open>
  Claim C2, as the code has it. In every state the \<open>auth_failure\<close> handler logs
  and calls \<open>hardRestart(true)\<close>, and the \<open>disconnected\<close> handler logs and calls
  \<open>hardRestart(false)\<close>; neither looks at the phase. The call starts a recovery
  (guard set, \<open>destroy()\<close> called, the wipe flag carried along) only when the
  guard is clear; with the guard set the event leaves nothing but its log line.
  \<open>initializeClient\<close> always returns with the guard set, and nothing but a
  \<open>ready\<close> event makes a set guard clear again, so from an initialization up to
  the next \<open>ready\<close> both events are ignored.
\<close>

theorem recovery_events_behind_guard:
  "step rm (EmitAuthFailure msg) s = hardRestart rm True (emit (Log (LogAuthFailure msg)) s) \<and>
   step rm (EmitDisconnected reason) s =
     hardRestart rm False (emit (Log (LogDisconnected reason)) s) \<and>
   (restarting s \<longrightarrow>
      step rm (EmitAuthFailure msg) s = emit (Log (LogAuthFailure msg)) s \<and>
      step rm (EmitDisconnected reason) s = emit (Log (LogDisconnected reason)) s) \<and>
   (\<not> restarting s \<and> client s = Some c \<longrightarrow>
      step rm (EmitAuthFailure msg) s =
        s\<lparr>restarting := True, pending := pending s @ [TDestroy True],
          effects := effects s @ [Log (LogAuthFailure msg), Log LogRestarting, ClientDestroy c]\<rparr> \<and>
      step rm (EmitDisconnected reason) s =
        s\<lparr>restarting := True, pending := pending s @ [TDestroy False],
          effects := effects s @
            [Log (LogDisconnected reason), Log LogRestarting, ClientDestroy c]\<rparr>) \<and>
   restarting (initializeClient s) \<and>
   (restarting s \<and> (\<forall>now. EmitReady now \<notin> set es) \<longrightarrow> restarting (run rm es s))"
  using initializeClient_sets_guard [of s] guard_stays_run [of s es rm]
  by (simp add: handler_defs Let_def)

theorem recovery_events_behind_guard_witness:
  "\<not> restarting ready_state \<and> client ready_state = Some 0 \<and>
   pending (step fs_ok (EmitAuthFailure ''expired'') ready_state) = [TInitialize, TDestroy True] \<and>
   pending (step fs_ok (EmitDisconnected ''NAVIGATION'') ready_state) =
     [TInitialize, TDestroy False] \<and>
   restarting starting_state \<and>
   step fs_ok (EmitDisconnected ''NAVIGATION'') starting_state =
     emit (Log (LogDisconnected ''NAVIGATION'')) starting_state \<and>
   restarting (run fs_ok [EmitQr ''ABC'', EmitAuthenticated, GetHealth] starting_state)"
proof -
  have a: "\<not> restarting ready_state \<and> client ready_state = Some 0"
    by (simp add: example_defs handler_defs Let_def)
  have p: "pending ready_state = [TInitialize]"
    by (simp add: example_defs handler_defs Let_def)
  have b: "restarting starting_state"
    by (simp add: example_defs handler_defs Let_def)
  have n: "\<forall>now. EmitReady now \<notin> set [EmitQr ''ABC'', EmitAuthenticated, GetHealth]"
    by simp
  note at_ready =
    recovery_events_behind_guard [of fs_ok "''expired''" ready_state "''NAVIGATION''" 0 "[]"]
  note at_start =
    recovery_events_behind_guard [of fs_ok "''expired''" starting_state "''NAVIGATION''" 0
      "[EmitQr ''ABC'', EmitAuthenticated, GetHealth]"]
  from at_ready a have
    "step fs_ok (EmitAuthFailure ''expired'') ready_state =
       ready_state\<lparr>restarting := True, pending := pending ready_state @ [TDestroy True],
         effects := effects ready_state @
           [Log (LogAuthFailure ''expired''), Log LogRestarting, ClientDestroy 0]\<rparr>"
    by blast
  then have c: "pending (step fs_ok (EmitAuthFailure ''expired'') ready_state) =
      [TInitialize, TDestroy True]"
    using p by simp
  from at_ready a have
    "step fs_ok (EmitDisconnected ''NAVIGATION'') ready_state =
       ready_state\<lparr>restarting := True, pending := pending ready_state @ [TDestroy False],
         effects := effects ready_state @
           [Log (LogDisconnected ''NAVIGATION''), Log LogRestarting, ClientDestroy 0]\<rparr>"
    by blast
  then have d: "pending (step fs_ok (EmitDisconnected ''NAVIGATION'') ready_state) =
      [TInitialize, TDestroy False]"
    using p by simp
  from at_start b have e: "step fs_ok (EmitDisconnected ''NAVIGATION'') starting_state =
      emit (Log (LogDisconnected ''NAVIGATION'')) starting_state"
    by blast
  from at_start b n
  have f: "restarting (run fs_ok [EmitQr ''ABC'', EmitAuthenticated, GetHealth] starting_state)"
    by blast
  from a b c d e f show ?thesis by blast
qed

text \<open>
  Right after start-up (no QR code yet, not authenticated, not ready) an
  \<open>auth_failure\<close> event starts no recovery: the state gains a log line and
  nothing else, so the transition to a restart is not available there.
\<close>

theorem auth_failure_ignored_while_initializing:
  "client starting_state = Some 0 \<and> isReady starting_state = False \<and>
   isAuthenticated starting_state = False \<and> qrCodeData starting_state = None \<and>
   recoveries_in_flight starting_state = 0 \<and>
   step fs_ok (EmitAuthFailure ''expired'') starting_state =
     emit (Log (LogAuthFailure ''expired'')) starting_state \<and>
   step fs_ok (EmitDisconnected ''NAVIGATION'') starting_state =
     emit (Log (LogDisconnected ''NAVIGATION'')) starting_state \<and>
   recoveries_in_flight (step fs_ok (EmitAuthFailure ''expired'') starting_state) = 0 \<and>
   recoveries_in_flight (step fs_ok (EmitDisconnected ''NAVIGATION'') starting_state) = 0"
  by (simp add: example_defs handler_defs Let_def)

subsection \<open>The QR payload\<close>

lemma qr_cleared_when_ready_step:
  "(isReady s \<longrightarrow> qrCodeData s = None) \<Longrightarrow>
   (isReady (step rm e s) \<longrightarrow> qrCodeData (step rm e s) = None)"
proof (cases e)
  case (Settle i out)
  assume a: "isReady s \<longrightarrow> qrCodeData s = None"
  show ?thesis
  proof (cases "i < length (pending s)")
    case True
    with a Settle show ?thesis
      by (cases "pending s ! i"; cases out)
         (auto simp: settle_def handler_defs Let_def split: option.splits)
  next
    case False
    with a Settle show ?thesis by (simp add: settle_def)
  qed
qed (auto simp: handler_defs Let_def split: option.splits)

lemma qr_cleared_when_ready_run:
  "(isReady s \<longrightarrow> qrCodeData s = None) \<Longrightarrow>
   (isReady (run rm es s) \<longrightarrow> qrCodeData (run rm es s) = None)"
proof (induction es arbitrary: s)
  case Nil
  then show ?case by (simp add: run_def)
next
  case (Cons e es)
  from Cons.prems have "isReady (step rm e s) \<longrightarrow> qrCodeData (step rm e s) = None"
    by (rule qr_cleared_when_ready_step)
  then have "isReady (run rm es (step rm e s)) \<longrightarrow> qrCodeData (run rm es (step rm e s)) = None"
    by (rule Cons.IH)
  then show ?case by (simp add: run_def)
qed

text \<open>
  Claim C3, as the code has it. In every reachable state the QR payload is
  null while the ready flag is set. The payload is written when the encoding
  started by a \<open>qr\<close> event resolves (together with both flags being cleared); it
  is cleared by the \<open>ready\<close> event and by every initialization that passes the
  guard. The \<open>authenticated\<close> event leaves it as it is; \<open>GET /auth/qr\<close> answers
  "already authenticated" once the authenticated flag is set and so does not
  hand the stale payload out.
\<close>

theorem qr_payload_lifetime:
  "(isReady (run rm es init_state) \<longrightarrow> qrCodeData (run rm es init_state) = None) \<and>
   (i < length (pending s) \<and> pending s ! i = TQr \<longrightarrow>
      qrCodeData (step rm (Settle i (ResolvedStr url)) s) = Some url \<and>
      \<not> isAuthenticated (step rm (Settle i (ResolvedStr url)) s) \<and>
      \<not> isReady (step rm (Settle i (ResolvedStr url)) s)) \<and>
   qrCodeData (step rm (EmitReady now) s) = None \<and>
   (\<not> restarting s \<longrightarrow> qrCodeData (initializeClient s) = None) \<and>
   qrCodeData (step rm EmitAuthenticated s) = qrCodeData s \<and>
   (isAuthenticated s \<longrightarrow> step rm GetAuthQr s = emit (Respond 200 AlreadyAuthenticated) s)"
proof -
  have "isReady init_state \<longrightarrow> qrCodeData init_state = None"
    by (simp add: init_state_def)
  then have "isReady (run rm es init_state) \<longrightarrow> qrCodeData (run rm es init_state) = None"
    by (rule qr_cleared_when_ready_run)
  then show ?thesis
    by (simp add: settle_def handler_defs Let_def)
qed

theorem qr_payload_lifetime_witness:
  "isReady (run fs_ok [AppListen, EmitQr ''ABC'', Settle 1 (ResolvedStr ''data:image/png''),
       EmitReady 5] init_state) \<and>
   qrCodeData (run fs_ok [AppListen, EmitQr ''ABC'', Settle 1 (ResolvedStr ''data:image/png''),
       EmitReady 5] init_state) = None \<and>
   pending (on_qr ''ABC'' starting_state) ! 1 = TQr \<and>
   qrCodeData (step fs_ok (Settle 1 (ResolvedStr ''data:image/png'')) (on_qr ''ABC'' starting_state)) =
     Some ''data:image/png'' \<and>
   \<not> restarting init_state \<and> qrCodeData (initializeClient init_state) = None \<and>
   isAuthenticated ready_state \<and>
   step fs_ok GetAuthQr ready_state = emit (Respond 200 AlreadyAuthenticated) ready_state"
proof -
  have u: "isAuthenticated ready_state"
    by (simp add: example_defs handler_defs Let_def)
  from qr_payload_lifetime [of fs_ok "[]" 0 ready_state "[]" 0] u
  have v: "step fs_ok GetAuthQr ready_state = emit (Respond 200 AlreadyAuthenticated) ready_state"
    by blast
  have a: "isReady (run fs_ok [AppListen, EmitQr ''ABC'', Settle 1 (ResolvedStr ''data:image/png''),
       EmitReady 5] init_state)"
    by (simp add: example_defs handler_defs Let_def)
  have b: "1 < length (pending (on_qr ''ABC'' starting_state)) \<and>
      pending (on_qr ''ABC'' starting_state) ! 1 = TQr"
    by (simp add: example_defs handler_defs Let_def)
  have c: "\<not> restarting init_state"
    by (simp add: init_state_def)
  note first = qr_payload_lifetime [of fs_ok
      "[AppListen, EmitQr ''ABC'', Settle 1 (ResolvedStr ''data:image/png''), EmitReady 5]"
      1 "on_qr ''ABC'' starting_state" "''data:image/png''" 5]
  note second = qr_payload_lifetime [of fs_ok "[]" 0 init_state "[]" 0]
  from first a have d:
    "qrCodeData (run fs_ok [AppListen, EmitQr ''ABC'', Settle 1 (ResolvedStr ''data:image/png''),
       EmitReady 5] init_state) = None"
    by blast
  from first b have e:
    "qrCodeData (step fs_ok (Settle 1 (ResolvedStr ''data:image/png''))
        (on_qr ''ABC'' starting_state)) = Some ''data:image/png''"
    by blast
  from second c have f: "qrCodeData (initializeClient init_state) = None"
    by blast
  from a b c d e f u v show ?thesis by blast
qed

text \<open>
  After \<open>qr\<close> (encoded) and then \<open>authenticated\<close> the payload is still there
  although the session has left the phase that awaits the QR scan.
\<close>

theorem qr_survives_authenticated:
  "qrCodeData
     (run fs_ok
        [AppListen, EmitQr ''ABC'', Settle 1 (ResolvedStr ''data:image/png''), EmitAuthenticated]
        init_state) = Some ''data:image/png'' \<and>
   isAuthenticated
     (run fs_ok
        [AppListen, EmitQr ''ABC'', Settle 1 (ResolvedStr ''data:image/png''), EmitAuthenticated]
        init_state)"
  by (simp add: example_defs handler_defs Let_def)

subsection \<open>The ready event\<close>




subsection \<open>The recovery procedure\<close>

text \<open>
  The steps of a recovery when no deletion raises, from the event to the
  reinitialization: guard, \<open>destroy()\<close> (whose outcome \<open>out1\<close> is not looked at),
  the two deletions if and only if the wipe was asked for, the 5000 ms delay,
  then the guard cleared and \<open>initializeClient\<close> entered, which resets the three
  runtime fields, builds the next client and sets the guard again.
\<close>

lemma recovery_steps_with_wipe:
  assumes "\<not> restarting s" "client s = Some c"
    "\<not> rm ''.wwebjs_auth''" "\<not> rm ''.wwebjs_cache''"
  shows "run rm [EmitAuthFailure msg, Settle (length (pending s)) out1,
            Settle (length (pending s)) out2] s =
         s\<lparr>client := Some (Suc c), qrCodeData := None, isAuthenticated := False,
           isReady := False, restarting := True,
           pending := pending s @ [TInitialize],
           effects := effects s @
             [Log (LogAuthFailure msg), Log LogRestarting, ClientDestroy c,
              Log LogClearingAuthCache, RmSync ''.wwebjs_auth'', RmSync ''.wwebjs_cache'',
              Sleep 5000, Log LogInitializing, NewClient (Suc c), ClientInitialize (Suc c)]\<rparr>"
  using assms by (simp add: run_def settle_def handler_defs Let_def)

lemma recovery_steps_without_wipe:
  assumes "\<not> restarting s" "client s = Some c"
  shows "run rm [EmitDisconnected reason, Settle (length (pending s)) out1,
            Settle (length (pending s)) out2] s =
         s\<lparr>client := Some (Suc c), qrCodeData := None, isAuthenticated := False,
           isReady := False, restarting := True,
           pending := pending s @ [TInitialize],
           effects := effects s @
             [Log (LogDisconnected reason), Log LogRestarting, ClientDestroy c,
              Sleep 5000, Log LogInitializing, NewClient (Suc c), ClientInitialize (Suc c)]\<rparr>"
  using assms by (simp add: run_def settle_def handler_defs Let_def)

text \<open>
  Claim C5 where a deletion fails. When \<open>fs.rmSync\<close> raises on the
  authentication cache, the recovery ends there: the browser cache is not
  touched, there is no delay, the guard stays set and \<open>initializeClient\<close> is
  never called. When it raises on the browser cache, the recovery ends after
  the second deletion in the same way. Only \<open>destroy()\<close> sits inside a \<open>try\<close>.
\<close>

theorem recovery_stops_at_failed_deletion:
  "(\<not> restarting s \<and> client s = Some c \<and> rm ''.wwebjs_auth'' \<longrightarrow>
      run rm [EmitAuthFailure msg, Settle (length (pending s)) out] s =
        s\<lparr>restarting := True,
          effects := effects s @
            [Log (LogAuthFailure msg), Log LogRestarting, ClientDestroy c,
             Log LogClearingAuthCache, RmSync ''.wwebjs_auth'', UncaughtError]\<rparr>) \<and>
   (\<not> restarting s \<and> client s = Some c \<and> \<not> rm ''.wwebjs_auth'' \<and> rm ''.wwebjs_cache'' \<longrightarrow>
      run rm [EmitAuthFailure msg, Settle (length (pending s)) out] s =
        s\<lparr>restarting := True,
          effects := effects s @
            [Log (LogAuthFailure msg), Log LogRestarting, ClientDestroy c,
             Log LogClearingAuthCache, RmSync ''.wwebjs_auth'', RmSync ''.wwebjs_cache'',
             UncaughtError]\<rparr>)"
  by (simp add: run_def settle_def handler_defs Let_def)

theorem recovery_stops_at_failed_deletion_witness:
  "\<not> restarting ready_state \<and> client ready_state = Some 0 \<and> fs_auth_busy ''.wwebjs_auth'' \<and>
   restarting (run fs_auth_busy [EmitAuthFailure ''expired'', Settle 1 Resolved] ready_state) \<and>
   pending (run fs_auth_busy [EmitAuthFailure ''expired'', Settle 1 Resolved] ready_state) =
     [TInitialize] \<and>
   effects (run fs_auth_busy [EmitAuthFailure ''expired'', Settle 1 Resolved] ready_state) =
     [Log LogServerRunning, Log LogInitializing, NewClient 0, ClientInitialize 0,
      Log LogClientReady, Log (LogAuthFailure ''expired''), Log LogRestarting, ClientDestroy 0,
      Log LogClearingAuthCache, RmSync ''.wwebjs_auth'', UncaughtError] \<and>
   \<not> fs_cache_busy ''.wwebjs_auth'' \<and> fs_cache_busy ''.wwebjs_cache'' \<and>
   restarting (run fs_cache_busy [EmitAuthFailure ''expired'', Settle 1 Resolved] ready_state) \<and>
   pending (run fs_cache_busy [EmitAuthFailure ''expired'', Settle 1 Resolved] ready_state) =
     [TInitialize]"
proof -
  have a: "\<not> restarting ready_state \<and> client ready_state = Some 0 \<and> fs_auth_busy ''.wwebjs_auth''"
    by (simp add: example_defs handler_defs Let_def)
  have p: "pending ready_state = [TInitialize]"
    by (simp add: example_defs handler_defs Let_def)
  have e: "effects ready_state =
      [Log LogServerRunning, Log LogInitializing, NewClient 0, ClientInitialize 0,
       Log LogClientReady]"
    by (simp add: example_defs handler_defs Let_def)
  have l: "length (pending ready_state) = 1"
    using p by simp
  from recovery_stops_at_failed_deletion
         [of ready_state 0 fs_auth_busy "''expired''" Resolved] a
  have "run fs_auth_busy [EmitAuthFailure ''expired'', Settle 1 Resolved] ready_state =
      ready_state\<lparr>restarting := True,
        effects := effects ready_state @
          [Log (LogAuthFailure ''expired''), Log LogRestarting, ClientDestroy 0,
           Log LogClearingAuthCache, RmSync ''.wwebjs_auth'', UncaughtError]\<rparr>"
    unfolding l by blast
  then have first:
    "restarting (run fs_auth_busy [EmitAuthFailure ''expired'', Settle 1 Resolved] ready_state) \<and>
     pending (run fs_auth_busy [EmitAuthFailure ''expired'', Settle 1 Resolved] ready_state) =
       [TInitialize] \<and>
     effects (run fs_auth_busy [EmitAuthFailure ''expired'', Settle 1 Resolved] ready_state) =
       [Log LogServerRunning, Log LogInitializing, NewClient 0, ClientInitialize 0,
        Log LogClientReady, Log (LogAuthFailure ''expired''), Log LogRestarting, ClientDestroy 0,
        Log LogClearingAuthCache, RmSync ''.wwebjs_auth'', UncaughtError]"
    using p e by simp
  have b: "\<not> restarting ready_state \<and> client ready_state = Some 0 \<and>
      \<not> fs_cache_busy ''.wwebjs_auth'' \<and> fs_cache_busy ''.wwebjs_cache''"
    by (simp add: example_defs handler_defs Let_def)
  from recovery_stops_at_failed_deletion
         [of ready_state 0 fs_cache_busy "''expired''" Resolved] b
  have "run fs_cache_busy [EmitAuthFailure ''expired'', Settle 1 Resolved] ready_state =
      ready_state\<lparr>restarting := True,
        effects := effects ready_state @
          [Log (LogAuthFailure ''expired''), Log LogRestarting, ClientDestroy 0,
           Log LogClearingAuthCache, RmSync ''.wwebjs_auth'', RmSync ''.wwebjs_cache'',
           UncaughtError]\<rparr>"
    unfolding l by blast
  then have second:
    "restarting (run fs_cache_busy [EmitAuthFailure ''expired'', Settle 1 Resolved] ready_state) \<and>
     pending (run fs_cache_busy [EmitAuthFailure ''expired'', Settle 1 Resolved] ready_state) =
       [TInitialize]"
    using p by simp
  from a b first second show ?thesis by blast
qed

subsection \<open>The watchdog\<close>

lemma ready_has_timestamp_step:
  "(isReady s \<longrightarrow> lastReadyAt s \<noteq> None) \<Longrightarrow>
   (isReady (step rm e s) \<longrightarrow> lastReadyAt (step rm e s) \<noteq> None)"
proof (cases e)
  case (Settle i out)
  assume a: "isReady s \<longrightarrow> lastReadyAt s \<noteq> None"
  show ?thesis
  proof (cases "i < length (pending s)")
    case True
    with a Settle show ?thesis
      by (cases "pending s ! i"; cases out)
         (auto simp: settle_def handler_defs Let_def split: option.splits)
  next
    case False
    with a Settle show ?thesis by (simp add: settle_def)
  qed
qed (auto simp: handler_defs Let_def split: option.splits)

lemma ready_has_timestamp_run:
  "(isReady s \<longrightarrow> lastReadyAt s \<noteq> None) \<Longrightarrow>
   (isReady (run rm es s) \<longrightarrow> lastReadyAt (run rm es s) \<noteq> None)"
proof (induction es arbitrary: s)
  case Nil
  then show ?case by (simp add: run_def)
next
  case (Cons e es)
  from Cons.prems have "isReady (step rm e s) \<longrightarrow> lastReadyAt (step rm e s) \<noteq> None"
    by (rule ready_has_timestamp_step)
  then have "isReady (run rm es (step rm e s)) \<longrightarrow> lastReadyAt (run rm es (step rm e s)) \<noteq> None"
    by (rule Cons.IH)
  then show ?case by (simp add: run_def)
qed

text \<open>
  Claim C6. The watchdog is installed with a period of 60000 ms. A tick at
  time \<open>now\<close> calls \<open>hardRestart(false)\<close> (after its log line) exactly when the
  ready flag is set and \<open>now - lastReadyAt\<close> is more than 900000 ms, that is 15
  minutes; in every other state the tick changes nothing. The call is subject
  to the restart guard like every other: with the guard set it is dropped and
  the tick leaves its log line only. In every reachable state with the ready
  flag set \<open>lastReadyAt\<close> holds a time, so the difference is the time since the
  session became ready.
\<close>

theorem watchdog_tick:
  "watchdog_period_ms = 60000 \<and>
   (isReady s \<and> now - (case lastReadyAt s of None \<Rightarrow> 0 | Some t \<Rightarrow> t) > 900000 \<longrightarrow>
      step rm (WatchdogTick now) s = hardRestart rm False (emit (Log LogHeartbeatLost) s)) \<and>
   (\<not> (isReady s \<and> now - (case lastReadyAt s of None \<Rightarrow> 0 | Some t \<Rightarrow> t) > 900000) \<longrightarrow>
      step rm (WatchdogTick now) s = s) \<and>
   (isReady s \<and> now - (case lastReadyAt s of None \<Rightarrow> 0 | Some t \<Rightarrow> t) > 900000 \<and>
    restarting s \<longrightarrow>
      step rm (WatchdogTick now) s = emit (Log LogHeartbeatLost) s) \<and>
   (isReady (run rm es init_state) \<longrightarrow> lastReadyAt (run rm es init_state) \<noteq> None)"
proof -
  have "isReady init_state \<longrightarrow> lastReadyAt init_state \<noteq> None"
    by (simp add: init_state_def)
  then have "isReady (run rm es init_state) \<longrightarrow> lastReadyAt (run rm es init_state) \<noteq> None"
    by (rule ready_has_timestamp_run)
  then show ?thesis
    by (simp add: watchdog_period_ms_def watchdog_def hardRestart_def emit_def Let_def)
qed

theorem watchdog_tick_witness:
  "isReady ready_state \<and> lastReadyAt ready_state = Some 0 \<and>
   pending (step fs_ok (WatchdogTick 900001) ready_state) = [TInitialize, TDestroy False] \<and>
   step fs_ok (WatchdogTick 900000) ready_state = ready_state \<and>
   step fs_ok (WatchdogTick 900001) starting_state = starting_state \<and>
   isReady (run fs_ok [AppListen, EmitReady 0] init_state) \<and>
   lastReadyAt (run fs_ok [AppListen, EmitReady 0] init_state) \<noteq> None \<and>
   isReady recovering_state \<and> restarting recovering_state \<and>
   step fs_ok (WatchdogTick 900001) recovering_state =
     emit (Log LogHeartbeatLost) recovering_state"
proof -
  have i: "isReady recovering_state \<and> restarting recovering_state \<and>
      lastReadyAt recovering_state = Some 0"
    by (simp add: example_defs handler_defs Let_def)
  have k: "(900001::int) - (case lastReadyAt recovering_state of None \<Rightarrow> 0 | Some t \<Rightarrow> t) >
      900000"
    using i by simp
  from watchdog_tick [of recovering_state 900001 fs_ok "[]"] i k
  have j: "step fs_ok (WatchdogTick 900001) recovering_state =
      emit (Log LogHeartbeatLost) recovering_state"
    by blast
  have g: "isReady (run fs_ok [AppListen, EmitReady 0] init_state)"
    by (simp add: example_defs handler_defs Let_def)
  from watchdog_tick [of ready_state 0 fs_ok "[AppListen, EmitReady 0]"] g
  have h: "lastReadyAt (run fs_ok [AppListen, EmitReady 0] init_state) \<noteq> None"
    by blast
  have a: "isReady ready_state \<and> lastReadyAt ready_state = Some 0"
    by (simp add: example_defs handler_defs Let_def)
  have b: "\<not> isReady starting_state"
    by (simp add: example_defs handler_defs Let_def)
  have c: "pending (hardRestart fs_ok False (emit (Log LogHeartbeatLost) ready_state)) =
      [TInitialize, TDestroy False]"
    by (simp add: example_defs handler_defs Let_def)
  from watchdog_tick [of ready_state 900001 fs_ok "[]"] a
  have d: "step fs_ok (WatchdogTick 900001) ready_state =
      hardRestart fs_ok False (emit (Log LogHeartbeatLost) ready_state)"
    by simp
  from watchdog_tick [of ready_state 900000 fs_ok "[]"] a
  have e: "step fs_ok (WatchdogTick 900000) ready_state = ready_state"
    by simp
  from watchdog_tick [of starting_state 900001 fs_ok "[]"] b
  have f: "step fs_ok (WatchdogTick 900001) starting_state = starting_state"
    by blast
  from a c d e f g h i j show ?thesis by simp
qed

subsection \<open>The send and reply endpoints\<close>

lemma hardRestart_keeps_ready: "isReady (hardRestart rm w s) = isReady s"
  by (simp add: handler_defs Let_def split: option.splits)

text \<open>
  Claim C7, as the code has it. For every payload \<open>/send\<close> and \<open>/reply\<close> answer
  503 "Client not ready" and send nothing when the ready flag is clear, and
  pass the message to \<open>client.sendMessage\<close> when it is set. \<open>hardRestart\<close> does not
  touch the ready flag, so a recovery that starts while the session is ready
  leaves the endpoints open until the reinitialization at its end.
\<close>

theorem send_and_reply_gate:
  "(\<not> isReady s \<longrightarrow>
      step rm (PostSend to message) s = emit (Respond 503 ClientNotReady) s \<and>
      step rm (PostReply chatId messageId replyText) s = emit (Respond 503 ClientNotReady) s) \<and>
   (isReady s \<and> client s = Some c \<longrightarrow>
      step rm (PostSend to message) s =
        suspend TSend (emit (SendMessage c (formatJID to) message None) s) \<and>
      step rm (PostReply chatId messageId replyText) s =
        suspend TSend (emit (SendMessage c chatId replyText messageId) s)) \<and>
   (isReady s \<and> client s = None \<longrightarrow>
      step rm (PostSend to message) s = emit (Respond 500 (SendFailure ''TypeError'')) s \<and>
      step rm (PostReply chatId messageId replyText) s =
        emit (Respond 500 (SendFailure ''TypeError'')) s) \<and>
   isReady (hardRestart rm w s) = isReady s"
  using hardRestart_keeps_ready [of rm w s]
  by (simp add: post_send_def post_reply_def)

theorem send_and_reply_gate_witness:
  "\<not> isReady starting_state \<and>
   effects (step fs_ok (PostSend (Some ''123456789'') (Some ''hello'')) starting_state) =
     effects starting_state @ [Respond 503 ClientNotReady] \<and>
   effects (step fs_ok (PostReply (Some ''123@c.us'') (Some ''m1'') (Some ''ok'')) starting_state) =
     effects starting_state @ [Respond 503 ClientNotReady] \<and>
   isReady ready_state \<and>
   effects (step fs_ok (PostSend (Some ''123456789'') (Some ''hello'')) ready_state) =
     effects ready_state @ [SendMessage 0 (Some ''123456789@c.us'') (Some ''hello'') None] \<and>
   isReady (on_ready 0 init_state) \<and> client (on_ready 0 init_state) = None \<and>
   step fs_ok (PostSend (Some ''123456789'') (Some ''hello'')) (on_ready 0 init_state) =
     emit (Respond 500 (SendFailure ''TypeError'')) (on_ready 0 init_state)"
proof -
  have g: "isReady (on_ready 0 init_state) \<and> client (on_ready 0 init_state) = None"
    by (simp add: example_defs handler_defs Let_def)
  from send_and_reply_gate [of "on_ready 0 init_state" fs_ok "Some ''123456789''"
      "Some ''hello''" "Some ''123@c.us''" "Some ''m1''" "Some ''ok''" 0 False] g
  have h: "step fs_ok (PostSend (Some ''123456789'') (Some ''hello'')) (on_ready 0 init_state) =
      emit (Respond 500 (SendFailure ''TypeError'')) (on_ready 0 init_state)"
    by blast
  have a: "\<not> isReady starting_state"
    by (simp add: example_defs handler_defs Let_def)
  have b: "isReady ready_state \<and> client ready_state = Some 0"
    by (simp add: example_defs handler_defs Let_def)
  have f: "formatJID (Some ''123456789'') = Some ''123456789@c.us''"
    by (simp add: formatJID_def)
  note at_start = send_and_reply_gate [of starting_state fs_ok "Some ''123456789''"
      "Some ''hello''" "Some ''123@c.us''" "Some ''m1''" "Some ''ok''" 0 False]
  note at_ready = send_and_reply_gate [of ready_state fs_ok "Some ''123456789''"
      "Some ''hello''" "Some ''123@c.us''" "Some ''m1''" "Some ''ok''" 0 False]
  from at_start a have
    "step fs_ok (PostSend (Some ''123456789'') (Some ''hello'')) starting_state =
       emit (Respond 503 ClientNotReady) starting_state"
    "step fs_ok (PostReply (Some ''123@c.us'') (Some ''m1'') (Some ''ok'')) starting_state =
       emit (Respond 503 ClientNotReady) starting_state"
    by blast+
  then have c:
    "effects (step fs_ok (PostSend (Some ''123456789'') (Some ''hello'')) starting_state) =
       effects starting_state @ [Respond 503 ClientNotReady]"
    "effects (step fs_ok (PostReply (Some ''123@c.us'') (Some ''m1'') (Some ''ok'')) starting_state) =
       effects starting_state @ [Respond 503 ClientNotReady]"
    by (simp_all add: emit_def)
  from at_ready b have
    "step fs_ok (PostSend (Some ''123456789'') (Some ''hello'')) ready_state =
       suspend TSend
         (emit (SendMessage 0 (formatJID (Some ''123456789'')) (Some ''hello'') None) ready_state)"
    by blast
  then have d:
    "effects (step fs_ok (PostSend (Some ''123456789'') (Some ''hello'')) ready_state) =
       effects ready_state @ [SendMessage 0 (Some ''123456789@c.us'') (Some ''hello'') None]"
    using f by (simp add: emit_def suspend_def)
  from a b c d g h show ?thesis by blast
qed

text \<open>
  While the recovery started by \<open>disconnected\<close> is in flight (guard set,
  \<open>hardRestart\<close> waiting for \<open>destroy()\<close>), \<open>/send\<close> and \<open>/reply\<close> do not answer 503:
  each hands its message to the client that is being destroyed.
\<close>

theorem send_during_recovery:
  "recoveries_in_flight recovering_state = 1 \<and> restarting recovering_state \<and>
   effects (step fs_ok (PostSend (Some ''123456789'') (Some ''hello'')) recovering_state) =
     effects recovering_state @ [SendMessage 0 (Some ''123456789@c.us'') (Some ''hello'') None] \<and>
   effects (step fs_ok (PostReply (Some ''123456789@c.us'') (Some ''m1'') (Some ''ok''))
       recovering_state) =
     effects recovering_state @ [SendMessage 0 (Some ''123456789@c.us'') (Some ''ok'') (Some ''m1'')]"
  by (simp add: example_defs handler_defs formatJID_def Let_def)

subsection \<open>Address normalization\<close>

text \<open>
  Claim C8, as the code has it. A missing or empty identifier gives \<open>null\<close>.
  A non-empty identifier that contains \<open>@\<close> is returned as it is; otherwise one
  that contains \<open>-\<close> gets the suffix \<open>@g.us\<close>; every other one gets the suffix
  \<open>@c.us\<close>. The three examples of the specification come out as stated.
\<close>

theorem formatJID_cases:
  "formatJID None = None \<and>
   formatJID (Some []) = None \<and>
   (n \<noteq> [] \<and> CHR ''@'' \<in> set n \<longrightarrow> formatJID (Some n) = Some n) \<and>
   (n \<noteq> [] \<and> CHR ''@'' \<notin> set n \<and> CHR ''-'' \<in> set n \<longrightarrow>
      formatJID (Some n) = Some (n @ ''@g.us'')) \<and>
   (n \<noteq> [] \<and> CHR ''@'' \<notin> set n \<and> CHR ''-'' \<notin> set n \<longrightarrow>
      formatJID (Some n) = Some (n @ ''@c.us'')) \<and>
   formatJID (Some ''123456789'') = Some ''123456789@c.us'' \<and>
   formatJID (Some ''123-456@g.us'') = Some ''123-456@g.us'' \<and>
   formatJID (Some ''123-456'') = Some ''123-456@g.us''"
  by (simp add: formatJID_def)

theorem formatJID_cases_witness:
  "formatJID (Some ''user@s.whatsapp.net'') = Some ''user@s.whatsapp.net'' \<and>
   formatJID (Some ''49170-1600000000'') = Some ''49170-1600000000@g.us'' \<and>
   formatJID (Some ''4917012345678'') = Some ''4917012345678@c.us''"
  using formatJID_cases [of "''user@s.whatsapp.net''"]
    formatJID_cases [of "''49170-1600000000''"]
    formatJID_cases [of "''4917012345678''"]
  by simp

text \<open>
  The empty identifier contains neither \<open>@\<close> nor \<open>-\<close>, yet it is not given the
  suffix \<open>@c.us\<close>: line 40 returns \<open>null\<close> for it.
\<close>

theorem formatJID_empty_identifier:
  "formatJID (Some []) = None \<and> formatJID (Some []) \<noteq> Some ''@c.us''"
  by (simp add: formatJID_def)

subsection \<open>The webhook relay\<close>

lemma str_includes_iff: "str_includes s pat \<longleftrightarrow> (\<exists>pre suf. s = pre @ pat @ suf)"
proof (induction s)
  case Nil
  then show ?case by simp
next
  case (Cons c cs)
  have here: "take (length pat) (c # cs) = pat \<longleftrightarrow> (\<exists>suf. c # cs = pat @ suf)"
    by (metis append_eq_conv_conj)
  have split: "(\<exists>pre suf. c # cs = pre @ pat @ suf) \<longleftrightarrow>
        (\<exists>suf. c # cs = pat @ suf) \<or> (\<exists>pre suf. cs = pre @ pat @ suf)"
  proof
    assume "\<exists>pre suf. c # cs = pre @ pat @ suf"
    then obtain pre suf where e: "c # cs = pre @ pat @ suf" by blast
    show "(\<exists>suf. c # cs = pat @ suf) \<or> (\<exists>pre suf. cs = pre @ pat @ suf)"
    proof (cases pre)
      case Nil
      with e show ?thesis by auto
    next
      case (Cons p ps)
      with e have "cs = ps @ pat @ suf" by simp
      then show ?thesis by blast
    qed
  next
    assume "(\<exists>suf. c # cs = pat @ suf) \<or> (\<exists>pre suf. cs = pre @ pat @ suf)"
    then show "\<exists>pre suf. c # cs = pre @ pat @ suf"
    proof
      assume "\<exists>suf. c # cs = pat @ suf"
      then obtain suf where "c # cs = [] @ pat @ suf" by auto
      then show ?thesis by blast
    next
      assume "\<exists>pre suf. cs = pre @ pat @ suf"
      then obtain pre suf where "cs = pre @ pat @ suf" by blast
      then have "c # cs = (c # pre) @ pat @ suf" by simp
      then show ?thesis by blast
    qed
  qed
  show ?case using here split Cons.IH by simp
qed

text \<open>
  Claim C9. For every inbound message: unless the listening flag is set and
  \<open>webhookUrl\<close> is set (a non-empty string, as JavaScript tests it), the handler
  does nothing at all; otherwise it posts to that URL once, and the posted
  object is \<open>from\<close>, \<open>body\<close>, \<open>timestamp\<close>, \<open>chatId\<close> equal to \<open>from\<close>, \<open>isGroup\<close> true
  exactly when \<open>from\<close> contains \<open>@g.us\<close>, and \<open>hasMedia\<close>. When the post fails the
  handler writes one log line: no variable of the session changes, nothing is
  posted again and no task is left behind.
\<close>

theorem webhook_relay:
  "(\<not> (isListening s \<and> truthy (webhookUrl s)) \<longrightarrow> step rm (EmitMessage m) s = s) \<and>
   (isListening s \<and> webhookUrl s = Some url \<and> url \<noteq> [] \<longrightarrow>
      step rm (EmitMessage m) s =
        s\<lparr>pending := pending s @ [TPost],
          effects := effects s @
            [AxiosPost url
               \<lparr>p_from = msg_from m, p_body = msg_body m, p_timestamp = msg_timestamp m,
                p_chatId = msg_from m, p_isGroup = str_includes (msg_from m) ''@g.us'',
                p_hasMedia = msg_hasMedia m\<rparr>]\<rparr>) \<and>
   (str_includes (msg_from m) ''@g.us'' \<longleftrightarrow> (\<exists>pre suf. msg_from m = pre @ ''@g.us'' @ suf)) \<and>
   (i < length (pending s) \<and> pending s ! i = TPost \<longrightarrow>
      step rm (Settle i (RejectedWith err)) s =
        s\<lparr>pending := take i (pending s) @ drop (Suc i) (pending s),
          effects := effects s @ [Log (LogWebhookFailed err)]\<rparr>)"
  using str_includes_iff [of "msg_from m" "''@g.us''"]
  by (auto simp: on_message_def truthy_def payload_of_def settle_def emit_def suspend_def)

theorem webhook_relay_witness:
  "isListening configured_state \<and>
   webhookUrl configured_state = Some ''http://localhost:8080/hook'' \<and>
   effects (step fs_ok (EmitMessage group_message) configured_state) =
     effects configured_state @
       [AxiosPost ''http://localhost:8080/hook''
          \<lparr>p_from = ''49170-1600000000@g.us'', p_body = ''hello'', p_timestamp = 1700000000,
           p_chatId = ''49170-1600000000@g.us'', p_isGroup = True, p_hasMedia = False\<rparr>] \<and>
   \<not> isListening ready_state \<and>
   step fs_ok (EmitMessage group_message) ready_state = ready_state \<and>
   pending (step fs_ok (EmitMessage group_message) configured_state) ! 1 = TPost \<and>
   isReady (step fs_ok (Settle 1 (RejectedWith ''ECONNREFUSED''))
       (step fs_ok (EmitMessage group_message) configured_state)) \<and>
   pending (step fs_ok (Settle 1 (RejectedWith ''ECONNREFUSED''))
       (step fs_ok (EmitMessage group_message) configured_state)) = [TInitialize]"
proof -
  have a: "isListening configured_state \<and>
      webhookUrl configured_state = Some ''http://localhost:8080/hook'' \<and>
      ''http://localhost:8080/hook'' \<noteq> []"
    by (simp add: example_defs handler_defs Let_def)
  have b: "\<not> isListening ready_state"
    by (simp add: example_defs handler_defs Let_def)
  have p: "pending configured_state = [TInitialize] \<and> isReady configured_state"
    by (simp add: example_defs handler_defs Let_def)
  have g: "str_includes (msg_from group_message) ''@g.us''"
    by (simp add: group_message_def)
  note posted = webhook_relay [of configured_state fs_ok group_message
      "''http://localhost:8080/hook''" 0 "[]"]
  from posted a have c:
    "step fs_ok (EmitMessage group_message) configured_state =
       configured_state\<lparr>pending := pending configured_state @ [TPost],
         effects := effects configured_state @
           [AxiosPost ''http://localhost:8080/hook''
              \<lparr>p_from = msg_from group_message, p_body = msg_body group_message,
               p_timestamp = msg_timestamp group_message, p_chatId = msg_from group_message,
               p_isGroup = str_includes (msg_from group_message) ''@g.us'',
               p_hasMedia = msg_hasMedia group_message\<rparr>]\<rparr>"
    by blast
  then have d:
    "effects (step fs_ok (EmitMessage group_message) configured_state) =
       effects configured_state @
         [AxiosPost ''http://localhost:8080/hook''
            \<lparr>p_from = ''49170-1600000000@g.us'', p_body = ''hello'', p_timestamp = 1700000000,
             p_chatId = ''49170-1600000000@g.us'', p_isGroup = True, p_hasMedia = False\<rparr>]"
    using g by (simp add: group_message_def)
  from c p have q:
    "1 < length (pending (step fs_ok (EmitMessage group_message) configured_state)) \<and>
     pending (step fs_ok (EmitMessage group_message) configured_state) ! 1 = TPost \<and>
     pending (step fs_ok (EmitMessage group_message) configured_state) = [TInitialize, TPost] \<and>
     isReady (step fs_ok (EmitMessage group_message) configured_state)"
    by simp
  from webhook_relay [of ready_state fs_ok group_message "[]" 0 "[]"] b
  have e: "step fs_ok (EmitMessage group_message) ready_state = ready_state"
    by blast
  from webhook_relay [of "step fs_ok (EmitMessage group_message) configured_state" fs_ok
      group_message "[]" 1 "''ECONNREFUSED''"] q
  have "step fs_ok (Settle 1 (RejectedWith ''ECONNREFUSED''))
          (step fs_ok (EmitMessage group_message) configured_state) =
        (step fs_ok (EmitMessage group_message) configured_state)
          \<lparr>pending := take 1 (pending (step fs_ok (EmitMessage group_message) configured_state)) @
              drop (Suc 1) (pending (step fs_ok (EmitMessage group_message) configured_state)),
            effects := effects (step fs_ok (EmitMessage group_message) configured_state) @
              [Log (LogWebhookFailed ''ECONNREFUSED'')]\<rparr>"
    by blast
  then have f:
    "isReady (step fs_ok (Settle 1 (RejectedWith ''ECONNREFUSED''))
        (step fs_ok (EmitMessage group_message) configured_state)) \<and>
     pending (step fs_ok (Settle 1 (RejectedWith ''ECONNREFUSED''))
        (step fs_ok (EmitMessage group_message) configured_state)) = [TInitialize]"
    using q by simp
  from a b d e f q show ?thesis by blast
qed

subsection \<open>The relay configuration\<close>

lemma config_kept_step:
  "\<not> is_configuration e \<Longrightarrow>
   isListening (step rm e s) = isListening s \<and> webhookUrl (step rm e s) = webhookUrl s"
proof (cases e)
  case (Settle i out)
  show ?thesis
  proof (cases "i < length (pending s)")
    case True
    with Settle show ?thesis
      by (cases "pending s ! i"; cases out)
         (auto simp: settle_def handler_defs Let_def split: option.splits)
  next
    case False
    with Settle show ?thesis by (simp add: settle_def)
  qed
qed (auto simp: handler_defs Let_def split: option.splits)

lemma config_kept_run:
  "\<forall>e \<in> set es. \<not> is_configuration e \<Longrightarrow>
   isListening (run rm es s) = isListening s \<and> webhookUrl (run rm es s) = webhookUrl s"
proof (induction es arbitrary: s)
  case Nil
  then show ?case by (simp add: run_def)
next
  case (Cons e es)
  then have "\<not> is_configuration e" and rest: "\<forall>e \<in> set es. \<not> is_configuration e"
    by simp_all
  then have "isListening (step rm e s) = isListening s \<and> webhookUrl (step rm e s) = webhookUrl s"
    using config_kept_step by blast
  moreover have "isListening (run rm es (step rm e s)) = isListening (step rm e s) \<and>
      webhookUrl (run rm es (step rm e s)) = webhookUrl (step rm e s)"
    using rest by (rule Cons.IH)
  ultimately show ?case by (simp add: run_def)
qed

text \<open>
  Claim C10. Every step other than \<open>GET /listen\<close> and \<open>POST /webhook/set\<close>, so
  every event of the client, every tick of the watchdog, every other request
  and every resumption of a recovery or an initialization, leaves \<open>isListening\<close>
  and \<open>webhookUrl\<close> as they are; hence so does every schedule without those two
  requests. \<open>resetRuntimeState\<close> writes \<open>qrCodeData\<close>, \<open>isAuthenticated\<close> and
  \<open>isReady\<close> and nothing else. \<open>GET /listen\<close> sets \<open>isListening\<close>, and
  \<open>POST /webhook/set\<close> stores the URL it is given.
\<close>

theorem configuration_survives:
  "(\<not> is_configuration e \<longrightarrow>
      isListening (step rm e s) = isListening s \<and> webhookUrl (step rm e s) = webhookUrl s) \<and>
   ((\<forall>e \<in> set es. \<not> is_configuration e) \<longrightarrow>
      isListening (run rm es s) = isListening s \<and> webhookUrl (run rm es s) = webhookUrl s) \<and>
   resetRuntimeState s = s\<lparr>qrCodeData := None, isAuthenticated := False, isReady := False\<rparr> \<and>
   step rm GetListen s = emit (Respond 200 ListeningEnabled) (s\<lparr>isListening := True\<rparr>) \<and>
   step rm (PostWebhookSet url) s =
     emit (Respond 200 (WebhookSetBody url)) (s\<lparr>webhookUrl := url\<rparr>)"
  using config_kept_step [of e rm s] config_kept_run [of es rm s]
  by (simp add: resetRuntimeState_def get_listen_def post_webhook_set_def)

theorem configuration_survives_witness:
  "filter is_configuration
     [EmitAuthFailure ''expired'', Settle 1 Resolved, Settle 1 Resolved,
      EmitQr ''ABC'', EmitMessage group_message, GetHealth] = [] \<and>
   client (run fs_ok
     [EmitAuthFailure ''expired'', Settle 1 Resolved, Settle 1 Resolved,
      EmitQr ''ABC'', EmitMessage group_message, GetHealth] configured_state) = Some 1 \<and>
   isListening (run fs_ok
     [EmitAuthFailure ''expired'', Settle 1 Resolved, Settle 1 Resolved,
      EmitQr ''ABC'', EmitMessage group_message, GetHealth] configured_state) \<and>
   webhookUrl (run fs_ok
     [EmitAuthFailure ''expired'', Settle 1 Resolved, Settle 1 Resolved,
      EmitQr ''ABC'', EmitMessage group_message, GetHealth] configured_state) =
     Some ''http://localhost:8080/hook'' \<and>
   is_configuration (EmitDisconnected ''NAVIGATION'') = False \<and>
   isListening (step fs_ok (EmitDisconnected ''NAVIGATION'') configured_state) \<and>
   webhookUrl (step fs_ok (EmitDisconnected ''NAVIGATION'') configured_state) =
     Some ''http://localhost:8080/hook''"
proof -
  have a: "\<forall>e \<in> set [EmitAuthFailure ''expired'', Settle 1 Resolved, Settle 1 Resolved,
        EmitQr ''ABC'', EmitMessage group_message, GetHealth]. \<not> is_configuration e"
    by simp
  have b: "isListening configured_state \<and>
      webhookUrl configured_state = Some ''http://localhost:8080/hook''"
    by (simp add: example_defs handler_defs Let_def)
  have c: "client (run fs_ok
     [EmitAuthFailure ''expired'', Settle 1 Resolved, Settle 1 Resolved,
      EmitQr ''ABC'', EmitMessage group_message, GetHealth] configured_state) = Some 1"
    by (simp add: example_defs handler_defs truthy_def Let_def)
  from configuration_survives [of GetHealth fs_ok configured_state
      "[EmitAuthFailure ''expired'', Settle 1 Resolved, Settle 1 Resolved,
        EmitQr ''ABC'', EmitMessage group_message, GetHealth]" None] a
  have "isListening (run fs_ok
     [EmitAuthFailure ''expired'', Settle 1 Resolved, Settle 1 Resolved,
      EmitQr ''ABC'', EmitMessage group_message, GetHealth] configured_state) =
       isListening configured_state \<and>
     webhookUrl (run fs_ok
     [EmitAuthFailure ''expired'', Settle 1 Resolved, Settle 1 Resolved,
      EmitQr ''ABC'', EmitMessage group_message, GetHealth] configured_state) =
       webhookUrl configured_state"
    by blast
  moreover
  from configuration_survives [of "EmitDisconnected ''NAVIGATION''" fs_ok configured_state
      "[]" None]
  have "isListening (step fs_ok (EmitDisconnected ''NAVIGATION'') configured_state) =
       isListening configured_state \<and>
     webhookUrl (step fs_ok (EmitDisconnected ''NAVIGATION'') configured_state) =
       webhookUrl configured_state"
    by simp
  ultimately show ?thesis using b c by simp
qed

end
